theory Spec2Isabelle
  imports Complex_Main "HOL-Library.Multiset" "HOL-Library.Sublist"
begin

section \<open>Numbers and strings\<close>

text \<open>
  The Go sources compute with \<open>float64\<close>, \<open>int\<close> and \<open>string\<close>. Throughout this
  development a \<open>float64\<close> is idealised as a \<^typ>\<open>real\<close> (exact arithmetic, no
  rounding, no infinities or NaN), a Go \<open>int\<close> as an \<^typ>\<open>int\<close>, and a Go
  \<open>string\<close> as the list of its bytes (\<^typ>\<open>string\<close>, one \<^typ>\<open>char\<close> per byte,
  so that \<open>len\<close> and slicing count bytes as Go does).
\<close>

section \<open>Decisions (package decision)\<close>

record Decision =
  Symbol :: string
  Action :: string
  Leverage :: int
  PositionSizeUSD :: real
  StopLoss :: real
  TakeProfit :: real
  NewStopLoss :: real
  NewTakeProfit :: real
  ClosePercentage :: real
  Confidence :: int
  RiskUSD :: real
  Reasoning :: string

text \<open>The zero value of the struct: what Go gives every field that is not set.\<close>

definition zeroDecision :: Decision where
  "zeroDecision = \<lparr> Symbol = [], Action = [], Leverage = 0, PositionSizeUSD = 0,
     StopLoss = 0, TakeProfit = 0, NewStopLoss = 0, NewTakeProfit = 0,
     ClosePercentage = 0, Confidence = 0, RiskUSD = 0, Reasoning = [] \<rparr>"

section \<open>Execution order: sortDecisionsByPriority\<close>

definition getActionPriority :: "string \<Rightarrow> int" where
  "getActionPriority action =
     (if action = ''close_long'' \<or> action = ''close_short'' \<or> action = ''partial_close'' then 1
      else if action = ''update_stop_loss'' \<or> action = ''update_take_profit'' then 2
      else if action = ''open_long'' \<or> action = ''open_short'' then 3
      else if action = ''hold'' \<or> action = ''wait'' then 4
      else 999)"

abbreviation prio :: "Decision \<Rightarrow> int" where
  "prio d \<equiv> getActionPriority (Action d)"

text \<open>
  The inner loop \<open>for j := i + 1; j < len(sorted); j++\<close>: whenever the element at \<open>i\<close>
  has a larger priority number than the element at \<open>j\<close>, the two are exchanged
  (\<open>srt\<close> is the source's slice \<open>sorted\<close>).
\<close>

function sort_inner :: "nat \<Rightarrow> nat \<Rightarrow> Decision list \<Rightarrow> Decision list" where
  "sort_inner i j srt =
     (if j < length srt
      then sort_inner i (j + 1)
             (if prio (srt ! i) > prio (srt ! j)
              then srt[i := srt ! j, j := srt ! i] else srt)
      else srt)"
  by pat_completeness auto
termination
  by (relation "measure (\<lambda>(i, j, srt). length srt - j)") auto

declare sort_inner.simps [simp del]

lemma length_sort_inner [simp]: "length (sort_inner i j xs) = length xs"
  by (induction i j xs rule: sort_inner.induct) (subst sort_inner.simps, simp)

text \<open>The outer loop \<open>for i := 0; i < len(sorted)-1; i++\<close>.\<close>

function sort_outer :: "nat \<Rightarrow> Decision list \<Rightarrow> Decision list" where
  "sort_outer i srt =
     (if i + 1 < length srt then sort_outer (i + 1) (sort_inner i (i + 1) srt)
      else srt)"
  by pat_completeness auto
termination
  by (relation "measure (\<lambda>(i, srt). length srt - i)") auto

declare sort_outer.simps [simp del]

definition sortDecisionsByPriority :: "Decision list \<Rightarrow> Decision list" where
  "sortDecisionsByPriority decisions =
     (if length decisions \<le> 1 then decisions else sort_outer 0 decisions)"

text \<open>The decisions of one priority rank, in the order in which a list holds them.\<close>

definition decisions_of_rank :: "int \<Rightarrow> Decision list \<Rightarrow> Decision list" where
  "decisions_of_rank r ds = filter (\<lambda>d. prio d = r) ds"



lemma mset_sort_inner: "i < length xs \<Longrightarrow> mset (sort_inner i j xs) = mset xs"
proof (induction i j xs rule: sort_inner.induct)
  case (1 i j srt)
  show ?case
  proof (cases "j < length srt")
    case True
    let ?nx = "if prio (srt ! i) > prio (srt ! j) then srt[i := srt ! j, j := srt ! i] else srt"
    have len: "i < length ?nx" using 1(2) by simp
    have "mset ?nx = mset srt" using True 1(2) by (simp add: mset_swap)
    moreover have "mset (sort_inner i (j + 1) ?nx) = mset ?nx" using 1(1) [OF True len] .
    ultimately show ?thesis using True by (subst sort_inner.simps) simp
  next
    case False
    then show ?thesis by (subst sort_inner.simps) simp
  qed
qed

lemma sort_inner_below: "k < i \<Longrightarrow> i < j \<Longrightarrow> sort_inner i j xs ! k = xs ! k"
proof (induction i j xs rule: sort_inner.induct)
  case (1 i j srt)
  show ?case
  proof (cases "j < length srt")
    case True
    let ?nx = "if prio (srt ! i) > prio (srt ! j) then srt[i := srt ! j, j := srt ! i] else srt"
    have "sort_inner i (j + 1) ?nx ! k = ?nx ! k" using 1(1) [OF True 1(2)] 1(3) by simp
    moreover have "?nx ! k = srt ! k" using 1(2,3) by simp
    ultimately show ?thesis using True by (subst sort_inner.simps) simp
  next
    case False
    then show ?thesis by (subst sort_inner.simps) simp
  qed
qed

lemma sort_inner_least:
  "i < j \<Longrightarrow> j \<le> length xs \<Longrightarrow> \<forall>m. i < m \<and> m < j \<longrightarrow> prio (xs ! i) \<le> prio (xs ! m) \<Longrightarrow>
   i < m \<Longrightarrow> m < length xs \<Longrightarrow> prio (sort_inner i j xs ! i) \<le> prio (sort_inner i j xs ! m)"
proof (induction i j xs rule: sort_inner.induct)
  case (1 i j srt)
  show ?case
  proof (cases "j < length srt")
    case True
    let ?nx = "if prio (srt ! i) > prio (srt ! j) then srt[i := srt ! j, j := srt ! i] else srt"
    have inv: "\<forall>m. i < m \<and> m < j + 1 \<longrightarrow> prio (?nx ! i) \<le> prio (?nx ! m)"
    proof (intro allI impI)
      fix m assume m: "i < m \<and> m < j + 1"
      show "prio (?nx ! i) \<le> prio (?nx ! m)"
      proof (cases "m = j")
        case True
        then show ?thesis using \<open>j < length srt\<close> 1(2) by (auto simp: nth_list_update)
      next
        case False
        then have "m < j" using m by simp
        then have "prio (srt ! i) \<le> prio (srt ! m)" using 1(4) m by simp
        then show ?thesis using \<open>j < length srt\<close> 1(2) m \<open>m < j\<close> by (auto simp: nth_list_update)
      qed
    qed
    have "prio (sort_inner i (j + 1) ?nx ! i) \<le> prio (sort_inner i (j + 1) ?nx ! m)"
      using 1(1) [OF True _ _ inv 1(5)] 1(2) True 1(6) by simp
    then show ?thesis using True by (subst (1 2) sort_inner.simps) simp
  next
    case False
    then have "j = length srt" using 1(3) by simp
    then show ?thesis using 1 by (subst (1 2) sort_inner.simps) simp
  qed
qed


lemma in_set_drop_nth: "x \<in> set (drop i xs) \<longleftrightarrow> (\<exists>c. i \<le> c \<and> c < length xs \<and> x = xs ! c)"
proof
  assume "x \<in> set (drop i xs)"
  then obtain k where "k < length (drop i xs)" "drop i xs ! k = x" by (auto simp: in_set_conv_nth)
  then have "i \<le> i + k \<and> i + k < length xs \<and> x = xs ! (i + k)" by auto
  then show "\<exists>c. i \<le> c \<and> c < length xs \<and> x = xs ! c" by blast
next
  assume "\<exists>c. i \<le> c \<and> c < length xs \<and> x = xs ! c"
  then obtain c where c: "i \<le> c" "c < length xs" "x = xs ! c" by blast
  then have "c - i < length (drop i xs)" "drop i xs ! (c - i) = x" by auto
  then show "x \<in> set (drop i xs)" by (metis nth_mem)
qed

lemma take_sort_inner: "i < j \<Longrightarrow> take i (sort_inner i j xs) = take i xs"
  by (rule nth_equalityI) (simp_all add: sort_inner_below)

lemma mset_drop_sort_inner:
  assumes "i < j" "i < length xs"
  shows "mset (drop i (sort_inner i j xs)) = mset (drop i xs)"
proof -
  have "mset (take i (sort_inner i j xs)) + mset (drop i (sort_inner i j xs)) = mset (take i xs) + mset (drop i xs)"
    using mset_sort_inner [OF assms(2), of j]
    by (metis append_take_drop_id mset_append)
  then show ?thesis using take_sort_inner [OF assms(1), of xs] by simp
qed

text \<open>
  The invariant of the outer loop: every position below \<open>i\<close> already holds a decision
  whose priority number is at most that of every decision behind it.
\<close>

definition placed :: "nat \<Rightarrow> Decision list \<Rightarrow> bool" where
  "placed i xs \<longleftrightarrow> (\<forall>a b. a < i \<longrightarrow> a < b \<longrightarrow> b < length xs \<longrightarrow> prio (xs ! a) \<le> prio (xs ! b))"

lemma placed_sort_inner:
  assumes "placed i xs" "i < length xs"
  shows "placed (i + 1) (sort_inner i (i + 1) xs)"
  unfolding placed_def
proof (intro allI impI)
  fix a b
  let ?ys = "sort_inner i (i + 1) xs"
  assume a: "a < i + 1" and ab: "a < b" and b: "b < length ?ys"
  show "prio (?ys ! a) \<le> prio (?ys ! b)"
  proof (cases "a = i")
    case True
    then show ?thesis
      using sort_inner_least [of i "i + 1" xs b] assms(2) ab b by simp
  next
    case False
    then have ai: "a < i" using a by simp
    have ya: "?ys ! a = xs ! a" using ai by (simp add: sort_inner_below)
    show ?thesis
    proof (cases "b < i")
      case True
      then have "?ys ! b = xs ! b" by (simp add: sort_inner_below)
      then show ?thesis using ya assms(1) ai ab b unfolding placed_def by simp
    next
      case False
      then have "i \<le> b \<and> b < length ?ys \<and> ?ys ! b = ?ys ! b" using b by simp
      then have "?ys ! b \<in> set (drop i ?ys)"
        unfolding in_set_drop_nth by blast
      then have "?ys ! b \<in> set (drop i xs)"
        using mset_drop_sort_inner [of i "i + 1" xs] assms(2) by (metis lessI Suc_eq_plus1 set_mset_mset)
      then obtain c where "i \<le> c" "c < length xs" "?ys ! b = xs ! c"
        by (auto simp: in_set_drop_nth)
      then show ?thesis using ya assms(1) ai unfolding placed_def by simp
    qed
  qed
qed

lemma sort_outer_props:
  "placed i xs \<Longrightarrow> placed (length xs) (sort_outer i xs) \<and> mset (sort_outer i xs) = mset xs"
proof (induction i xs rule: sort_outer.induct)
  case (1 i srt)
  show ?case
  proof (cases "i + 1 < length srt")
    case True
    then have il: "i < length srt" by simp
    have "placed (i + 1) (sort_inner i (i + 1) srt)" using placed_sort_inner [OF 1(2) il] .
    from 1(1) [OF True this] show ?thesis
      using True il by (subst (1 2) sort_outer.simps) (simp add: mset_sort_inner)
  next
    case False
    have "placed (length srt) srt"
      unfolding placed_def
    proof (intro allI impI)
      fix a b assume "a < length srt" "a < b" "b < length srt"
      then have "a < i" using False by simp
      then show "prio (srt ! a) \<le> prio (srt ! b)"
        using 1(2) \<open>a < b\<close> \<open>b < length srt\<close> unfolding placed_def by simp
    qed
    then show ?thesis using False by (subst (1 2) sort_outer.simps) simp
  qed
qed

lemma placed_sorted: "placed (length xs) xs \<Longrightarrow> sorted (map prio xs)"
  unfolding placed_def by (auto simp: sorted_iff_nth_mono_less)

lemma sorted_by_priority:
  "sorted (map prio (sortDecisionsByPriority ds)) \<and> mset (sortDecisionsByPriority ds) = mset ds"
proof (cases "length ds \<le> 1")
  case True
  then have "length (map prio ds) \<le> 1" by simp
  then have "sorted (map prio ds)" by (cases ds) (auto)
  then show ?thesis using True by (simp add: sortDecisionsByPriority_def)
next
  case False
  have "placed 0 ds" by (simp add: placed_def)
  from sort_outer_props [OF this] have "placed (length (sort_outer 0 ds)) (sort_outer 0 ds)" "mset (sort_outer 0 ds) = mset ds"
    by (metis size_mset)+
  then show ?thesis using False by (simp add: sortDecisionsByPriority_def placed_sorted)
qed

text \<open>Three decisions of an LLM answer: two opens, then a close.\<close>

definition ex_a :: Decision where "ex_a = zeroDecision\<lparr>Symbol := ''BTCUSDT'', Action := ''open_long''\<rparr>"
definition ex_b :: Decision where "ex_b = zeroDecision\<lparr>Symbol := ''ETHUSDT'', Action := ''open_short''\<rparr>"
definition ex_c :: Decision where "ex_c = zeroDecision\<lparr>Symbol := ''SOLUSDT'', Action := ''close_long''\<rparr>"

lemma ex_sorted: "sortDecisionsByPriority [ex_a, ex_b, ex_c] = [ex_c, ex_b, ex_a]"
  by (simp add: sortDecisionsByPriority_def sort_outer.simps sort_inner.simps ex_a_def ex_b_def ex_c_def getActionPriority_def zeroDecision_def)

text \<open>
  Claim C2, as stated: the sort is stable, so the decisions of one rank keep their input
  order. It fails: the exchange of positions \<open>0\<close> and \<open>2\<close> carries the first open
  behind the second one. The input \<open>[open_long BTCUSDT, open_short ETHUSDT, close_long SOLUSDT]\<close>
  comes out as \<open>[close_long SOLUSDT, open_short ETHUSDT, open_long BTCUSDT]\<close>, and the two
  decisions of rank 3 have changed places.
\<close>

theorem C2_stability_counterexample:
  "sortDecisionsByPriority [ex_a, ex_b, ex_c] = [ex_c, ex_b, ex_a] \<and>
   decisions_of_rank 3 (sortDecisionsByPriority [ex_a, ex_b, ex_c]) = [ex_b, ex_a] \<and>
   decisions_of_rank 3 [ex_a, ex_b, ex_c] = [ex_a, ex_b] \<and>
   decisions_of_rank 3 (sortDecisionsByPriority [ex_a, ex_b, ex_c]) \<noteq>
   decisions_of_rank 3 [ex_a, ex_b, ex_c]"
  unfolding ex_sorted
  by (simp add: decisions_of_rank_def ex_a_def ex_b_def ex_c_def getActionPriority_def
      zeroDecision_def)

text \<open>The nine actions to which \<open>getActionPriority\<close> gives a rank of its own.\<close>

definition rankedActions :: "string list" where
  "rankedActions = [''close_long'', ''close_short'', ''partial_close'', ''update_stop_loss'',
     ''update_take_profit'', ''open_long'', ''open_short'', ''hold'', ''wait'']"

lemma rankedActions_iff:
  "x \<in> set rankedActions \<longleftrightarrow>
     x = ''close_long'' \<or> x = ''close_short'' \<or> x = ''partial_close'' \<or>
     x = ''update_stop_loss'' \<or> x = ''update_take_profit'' \<or> x = ''open_long'' \<or>
     x = ''open_short'' \<or> x = ''hold'' \<or> x = ''wait''"
  unfolding rankedActions_def by auto

lemma unranked_999: "x \<notin> set rankedActions \<Longrightarrow> getActionPriority x = 999"
  unfolding rankedActions_iff getActionPriority_def by simp

lemma ranked_below_999: "x \<in> set rankedActions \<Longrightarrow> getActionPriority x \<le> 4"
  unfolding rankedActions_iff getActionPriority_def by auto

lemma sorted_map_nth:
  assumes "sorted (map f xs)" "i < j" "j < length xs"
  shows "f (xs ! i) \<le> f (xs ! j)"
proof -
  have "map f xs ! i \<le> map f xs ! j"
    using assms by (intro sorted_nth_mono) simp_all
  then show ?thesis using assms by simp
qed

text \<open>
  Claim C2, amended: the output of \<open>sortDecisionsByPriority\<close> holds exactly the decisions
  of the input (as a multiset) in ascending order of priority rank, where the closes and
  the partial close have rank 1, the two updates rank 2, the two opens rank 3, hold and
  wait rank 4, and every other action rank 999; so a decision with any other action never
  stands in front of one with a ranked action. The order of two decisions of one rank is
  not promised.
\<close>

theorem C2_sorted_by_rank:
  "mset (sortDecisionsByPriority ds) = mset ds \<and>
   sorted (map (\<lambda>d. getActionPriority (Action d)) (sortDecisionsByPriority ds)) \<and>
   getActionPriority ''close_long'' = 1 \<and> getActionPriority ''close_short'' = 1 \<and>
   getActionPriority ''partial_close'' = 1 \<and>
   getActionPriority ''update_stop_loss'' = 2 \<and> getActionPriority ''update_take_profit'' = 2 \<and>
   getActionPriority ''open_long'' = 3 \<and> getActionPriority ''open_short'' = 3 \<and>
   getActionPriority ''hold'' = 4 \<and> getActionPriority ''wait'' = 4 \<and>
   (a \<notin> set rankedActions \<longrightarrow> getActionPriority a = 999) \<and>
   (i < j \<and> j < length ds \<and> Action (sortDecisionsByPriority ds ! i) \<notin> set rankedActions \<longrightarrow>
      Action (sortDecisionsByPriority ds ! j) \<notin> set rankedActions)"
proof -
  let ?out = "sortDecisionsByPriority ds"
  note s = sorted_by_priority [of ds]
  have len: "length ?out = length ds" using s by (metis size_mset)
  have last: "i < j \<and> j < length ds \<and> Action (?out ! i) \<notin> set rankedActions \<longrightarrow>
      Action (?out ! j) \<notin> set rankedActions"
  proof (intro impI, elim conjE)
    assume ij: "i < j" and j: "j < length ds" and u: "Action (?out ! i) \<notin> set rankedActions"
    have "prio (?out ! i) \<le> prio (?out ! j)"
      using s ij j len by (intro sorted_map_nth [of prio]) simp_all
    then have "999 \<le> prio (?out ! j)" using unranked_999 [OF u] by simp
    then show "Action (?out ! j) \<notin> set rankedActions"
      using ranked_below_999 [of "Action (?out ! j)"] by auto
  qed
  have ranks: "getActionPriority ''close_long'' = 1 \<and> getActionPriority ''close_short'' = 1 \<and>
   getActionPriority ''partial_close'' = 1 \<and>
   getActionPriority ''update_stop_loss'' = 2 \<and> getActionPriority ''update_take_profit'' = 2 \<and>
   getActionPriority ''open_long'' = 3 \<and> getActionPriority ''open_short'' = 3 \<and>
   getActionPriority ''hold'' = 4 \<and> getActionPriority ''wait'' = 4"
    by (simp add: getActionPriority_def)
  show ?thesis using s ranks last unranked_999 [of a] by blast
qed

text \<open>
  An answer with an action the engine does not know, twice, around a close: the close
  comes first, the unknown actions last.
\<close>

definition ex_u :: Decision where "ex_u = zeroDecision\<lparr>Symbol := ''BTCUSDT'', Action := ''buy''\<rparr>"

theorem C2_sorted_by_rank_witness:
  "''buy'' \<notin> set rankedActions \<and> getActionPriority ''buy'' = 999 \<and>
   sortDecisionsByPriority [ex_u, ex_c, ex_u] = [ex_c, ex_u, ex_u] \<and>
   (1::nat) < 2 \<and> (2::nat) < length [ex_u, ex_c, ex_u] \<and>
   Action (sortDecisionsByPriority [ex_u, ex_c, ex_u] ! 1) \<notin> set rankedActions \<and>
   Action (sortDecisionsByPriority [ex_u, ex_c, ex_u] ! 2) \<notin> set rankedActions"
proof -
  have b: "''buy'' \<notin> set rankedActions" by (simp add: rankedActions_iff)
  have e: "sortDecisionsByPriority [ex_u, ex_c, ex_u] = [ex_c, ex_u, ex_u]"
    by (simp add: sortDecisionsByPriority_def sort_outer.simps sort_inner.simps ex_u_def ex_c_def
        getActionPriority_def zeroDecision_def)
  have a: "Action ex_u \<notin> set rankedActions"
    by (simp add: ex_u_def rankedActions_iff zeroDecision_def)
  show ?thesis
    using C2_sorted_by_rank [of "[ex_u, ex_c, ex_u]" "''buy''" 1 2] b a by (simp add: e)
qed



section \<open>Decision validation: validateDecision and validateDecisions\<close>

text \<open>
  The error values of the validator. Go builds them with \<open>fmt.Errorf\<close>; the model keeps
  the kind of each error and the values its message is formatted from.
  \<open>DecisionFailed n e\<close> is the wrapper of \<open>validateDecisions\<close>, with the one-based index
  of the decision that failed.
\<close>

datatype validation_error =
    InvalidAction string
  | LeverageOutOfRange int string int
  | StopLossNotPositive real
  | TakeProfitNotPositive real
  | ClosePercentageOutOfRange real
  | DecisionFailed nat validation_error

definition validActions :: "string list" where
  "validActions = [''open_long'', ''open_short'', ''close_long'', ''close_short'',
     ''update_stop_loss'', ''update_take_profit'', ''partial_close'', ''hold'', ''wait'']"

text \<open>
  \<open>validateDecision\<close> returns \<open>None\<close> for Go's \<open>nil\<close> error. The parameters
  \<open>accountEquity\<close> and \<open>currentPrice\<close> are passed as in the source, which reads neither.
  The margin it computes for an open is only logged.
\<close>

definition validateDecision :: "Decision \<Rightarrow> real \<Rightarrow> int \<Rightarrow> int \<Rightarrow> real \<Rightarrow> validation_error option" where
  "validateDecision d accountEquity btcEthLeverage altcoinLeverage currentPrice =
     (if Action d \<notin> set validActions then Some (InvalidAction (Action d))
      else
        let maxLeverage = (if Symbol d = ''BTCUSDT'' \<or> Symbol d = ''ETHUSDT''
                           then btcEthLeverage else altcoinLeverage)
        in if (Action d = ''open_long'' \<or> Action d = ''open_short'') \<and>
              (Leverage d \<le> 0 \<or> Leverage d > maxLeverage)
           then Some (LeverageOutOfRange maxLeverage (Symbol d) (Leverage d))
           else if Action d = ''update_stop_loss'' \<and> NewStopLoss d \<le> 0
           then Some (StopLossNotPositive (NewStopLoss d))
           else if Action d = ''update_take_profit'' \<and> NewTakeProfit d \<le> 0
           then Some (TakeProfitNotPositive (NewTakeProfit d))
           else if Action d = ''partial_close'' \<and>
                   (ClosePercentage d \<le> 0 \<or> ClosePercentage d > 100)
           then Some (ClosePercentageOutOfRange (ClosePercentage d))
           else None)"

text \<open>
  The price a decision is validated at: the entry of \<open>marketDataMap\<close> when the map is not
  nil and holds a non-nil record for the symbol, else \<open>0\<close>; for an open whose price is
  still not positive, the price \<open>market.Get\<close> returns when it succeeds. The map is
  modelled by the \<open>CurrentPrice\<close> of its records (\<open>None\<close> for a nil map, \<open>Some None\<close>
  at a key for a nil record), \<open>market.Get\<close> by the price it returns (\<open>None\<close> for an
  error).
\<close>

definition priceForDecision ::
  "Decision \<Rightarrow> (string \<rightharpoonup> real option) option \<Rightarrow> (string \<Rightarrow> real option) \<Rightarrow> real" where
  "priceForDecision d marketDataMap marketGet =
     (let currentPrice =
            (case marketDataMap of None \<Rightarrow> 0
             | Some m \<Rightarrow> (case m (Symbol d) of Some (Some p) \<Rightarrow> p | _ \<Rightarrow> 0))
      in if currentPrice \<le> 0 \<and> (Action d = ''open_long'' \<or> Action d = ''open_short'')
         then (case marketGet (Symbol d) of Some p \<Rightarrow> p | None \<Rightarrow> currentPrice)
         else currentPrice)"

text \<open>The loop \<open>for i, decision := range decisions\<close>, from index \<open>i\<close> on.\<close>

fun validateDecisionsFrom ::
  "nat \<Rightarrow> Decision list \<Rightarrow> real \<Rightarrow> int \<Rightarrow> int \<Rightarrow> (string \<rightharpoonup> real option) option \<Rightarrow>
   (string \<Rightarrow> real option) \<Rightarrow> validation_error option" where
  "validateDecisionsFrom i [] accountEquity btcEthLeverage altcoinLeverage marketDataMap marketGet = None"
| "validateDecisionsFrom i (decision # rest) accountEquity btcEthLeverage altcoinLeverage marketDataMap marketGet =
     (case validateDecision decision accountEquity btcEthLeverage altcoinLeverage
             (priceForDecision decision marketDataMap marketGet) of
        Some err \<Rightarrow> Some (DecisionFailed (i + 1) err)
      | None \<Rightarrow> validateDecisionsFrom (i + 1) rest accountEquity btcEthLeverage altcoinLeverage
                  marketDataMap marketGet)"

definition validateDecisions ::
  "Decision list \<Rightarrow> real \<Rightarrow> int \<Rightarrow> int \<Rightarrow> (string \<rightharpoonup> real option) option \<Rightarrow>
   (string \<Rightarrow> real option) \<Rightarrow> validation_error option" where
  "validateDecisions decisions accountEquity btcEthLeverage altcoinLeverage marketDataMap marketGet =
     validateDecisionsFrom 0 decisions accountEquity btcEthLeverage altcoinLeverage marketDataMap marketGet"

text \<open>The checks of the validator on one decision, as a predicate.\<close>

definition decision_passes :: "int \<Rightarrow> int \<Rightarrow> Decision \<Rightarrow> bool" where
  "decision_passes btcEthLeverage altcoinLeverage d \<longleftrightarrow>
     Action d \<in> set validActions \<and>
     (Action d = ''open_long'' \<or> Action d = ''open_short'' \<longrightarrow>
        1 \<le> Leverage d \<and>
        Leverage d \<le> (if Symbol d = ''BTCUSDT'' \<or> Symbol d = ''ETHUSDT''
                       then btcEthLeverage else altcoinLeverage)) \<and>
     (Action d = ''update_stop_loss'' \<longrightarrow> 0 < NewStopLoss d) \<and>
     (Action d = ''update_take_profit'' \<longrightarrow> 0 < NewTakeProfit d) \<and>
     (Action d = ''partial_close'' \<longrightarrow> 0 < ClosePercentage d \<and> ClosePercentage d \<le> 100)"

text \<open>An open decision of notional \<open>0\<close> with a leverage inside the ceiling.\<close>

definition ex_open_zero :: Decision where
  "ex_open_zero = zeroDecision\<lparr>Symbol := ''BTCUSDT'', Action := ''open_long'', Leverage := 5,
      PositionSizeUSD := 0, StopLoss := 59000, TakeProfit := 62000\<rparr>"

lemma validActions_iff:
  "x \<in> set validActions \<longleftrightarrow>
     x = ''open_long'' \<or> x = ''open_short'' \<or> x = ''close_long'' \<or> x = ''close_short'' \<or>
     x = ''update_stop_loss'' \<or> x = ''update_take_profit'' \<or> x = ''partial_close'' \<or>
     x = ''hold'' \<or> x = ''wait''"
  unfolding validActions_def by auto

lemma validateDecision_passes:
  "validateDecision d eq b a p = None \<longleftrightarrow> decision_passes b a d"
  unfolding validateDecision_def decision_passes_def Let_def validActions_iff
  by (cases "Symbol d = ''BTCUSDT'' \<or> Symbol d = ''ETHUSDT''") auto

lemma validateDecisionsFrom_passes:
  "validateDecisionsFrom i ds eq b a mm mg = None \<longleftrightarrow> list_all (decision_passes b a) ds"
proof (induction ds arbitrary: i)
  case Nil
  show ?case by simp
next
  case (Cons d ds)
  show ?case
  proof (cases "validateDecision d eq b a (priceForDecision d mm mg)")
    case None
    then have "decision_passes b a d" by (simp add: validateDecision_passes)
    then show ?thesis using None Cons by simp
  next
    case (Some e)
    then have "\<not> decision_passes b a d" using validateDecision_passes [of d eq b a "priceForDecision d mm mg"] by simp
    then show ?thesis using Some by simp
  qed
qed

lemma validateDecision_size:
  "validateDecision (d\<lparr>PositionSizeUSD := v\<rparr>) eq b a p = validateDecision d eq b a p'"
  by (simp add: validateDecision_def Let_def cong: if_cong split del: if_split)

lemma validateDecisionsFrom_size:
  "validateDecisionsFrom i (map (\<lambda>d. d\<lparr>PositionSizeUSD := f d\<rparr>) ds) eq b a mm mg =
   validateDecisionsFrom i ds eq b a mm mg"
proof (induction ds arbitrary: i)
  case Nil
  show ?case by simp
next
  case (Cons d ds)
  have "validateDecision (d\<lparr>PositionSizeUSD := f d\<rparr>) eq b a
          (priceForDecision (d\<lparr>PositionSizeUSD := f d\<rparr>) mm mg) =
        validateDecision d eq b a (priceForDecision d mm mg)"
    by (rule validateDecision_size)
  then show ?case
    unfolding list.map validateDecisionsFrom.simps Cons.IH by simp
qed

text \<open>
  Claim C5, as stated: a list holding an open decision whose \<open>position_size_usd\<close> is not
  strictly positive is rejected. It fails: the validator never reads the field (the source
  keeps the leverage check only and leaves the rest to the exchange), so the list
  \<open>[open_long BTCUSDT, leverage 5, position_size_usd 0]\<close> is accepted under the ceilings
  10 and 5.
\<close>

theorem C5_counterexample:
  "validateDecisions [ex_open_zero] 100 10 5 None (\<lambda>s. None) = None \<and>
   Action ex_open_zero = ''open_long'' \<and> \<not> 0 < PositionSizeUSD ex_open_zero"
  by (simp add: validateDecisions_def validateDecision_def priceForDecision_def ex_open_zero_def
      zeroDecision_def validActions_iff)

text \<open>
  The reason given for a decision that does not pass: that of the first check it fails, in
  the order invalid action, leverage, new stop loss, new take profit, close percentage.
\<close>

definition first_failure :: "int \<Rightarrow> int \<Rightarrow> Decision \<Rightarrow> validation_error" where
  "first_failure btcEthLeverage altcoinLeverage d =
     (if Action d \<notin> set validActions then InvalidAction (Action d)
      else if Action d = ''open_long'' \<or> Action d = ''open_short''
      then LeverageOutOfRange
             (if Symbol d = ''BTCUSDT'' \<or> Symbol d = ''ETHUSDT'' then btcEthLeverage else altcoinLeverage)
             (Symbol d) (Leverage d)
      else if Action d = ''update_stop_loss'' then StopLossNotPositive (NewStopLoss d)
      else if Action d = ''update_take_profit'' then TakeProfitNotPositive (NewTakeProfit d)
      else ClosePercentageOutOfRange (ClosePercentage d))"

lemma validateDecision_reason:
  "validateDecision d eq b a p =
     (if decision_passes b a d then None else Some (first_failure b a d))"
proof (cases "decision_passes b a d")
  case True
  then show ?thesis by (simp add: validateDecision_passes)
next
  case False
  have "validateDecision d eq b a p = Some (first_failure b a d)"
  proof (cases "Action d \<in> set validActions")
    case n: False
    then show ?thesis by (simp add: validateDecision_def first_failure_def)
  next
    case y: True
    then have "Action d = ''open_long'' \<or> Action d = ''open_short'' \<or> Action d = ''close_long'' \<or>
        Action d = ''close_short'' \<or> Action d = ''update_stop_loss'' \<or>
        Action d = ''update_take_profit'' \<or> Action d = ''partial_close'' \<or>
        Action d = ''hold'' \<or> Action d = ''wait''"
      unfolding validActions_iff .
    then show ?thesis
      using False
      by (elim disjE; simp add: validateDecision_def first_failure_def decision_passes_def Let_def
            validActions_iff not_le not_less) auto
  qed
  then show ?thesis using False by simp
qed

lemma validateDecisionsFrom_reason:
  "validateDecisionsFrom k ds eq b a mm mg =
     (case dropWhile (decision_passes b a) ds of
        [] \<Rightarrow> None
      | d # rest \<Rightarrow>
          Some (DecisionFailed (k + length (takeWhile (decision_passes b a) ds) + 1)
                  (first_failure b a d)))"
proof (induction ds arbitrary: k)
  case Nil
  show ?case by simp
next
  case (Cons d ds)
  show ?case
  proof (cases "decision_passes b a d")
    case True
    have step: "validateDecisionsFrom k (d # ds) eq b a mm mg = validateDecisionsFrom (k + 1) ds eq b a mm mg"
      using True by (simp add: validateDecision_reason)
    have dw: "dropWhile (decision_passes b a) (d # ds) = dropWhile (decision_passes b a) ds"
      "takeWhile (decision_passes b a) (d # ds) = d # takeWhile (decision_passes b a) ds"
      using True by simp_all
    show ?thesis
    proof (cases "dropWhile (decision_passes b a) ds")
      case Nil
      then show ?thesis using Cons.IH [of "k + 1"] by (simp only: step dw list.case)
    next
      case (Cons x xs)
      then show ?thesis using Cons.IH [of "k + 1"] by (simp only: step dw list.case) simp
    qed
  next
    case False
    then show ?thesis by (simp add: validateDecision_reason)
  qed
qed

text \<open>
  Claim C5, amended: the validator accepts a list exactly when every decision in it has a
  known action and, for an open, a leverage between 1 and the ceiling of its symbol, for
  an update a strictly positive new price, and for a partial close a percentage in
  \<open>(0, 100]\<close>. One failing decision rejects the whole list: the error names the first
  decision that does not pass, by its position counted from one, and carries the reason of
  the first check that this decision fails. The verdict does not depend on
  \<open>position_size_usd\<close>: replacing that field by any value in every decision leaves the
  result unchanged.
\<close>

theorem C5_validator_checks:
  "(validateDecisions ds eq b a mm mg = None \<longleftrightarrow> list_all (decision_passes b a) ds) \<and>
   validateDecisions ds eq b a mm mg =
     (case dropWhile (decision_passes b a) ds of
        [] \<Rightarrow> None
      | d # rest \<Rightarrow>
          Some (DecisionFailed (length (takeWhile (decision_passes b a) ds) + 1)
                  (first_failure b a d))) \<and>
   validateDecisions (map (\<lambda>d. d\<lparr>PositionSizeUSD := f d\<rparr>) ds) eq b a mm mg =
     validateDecisions ds eq b a mm mg"
proof -
  have 1: "validateDecisions ds eq b a mm mg = None \<longleftrightarrow> list_all (decision_passes b a) ds"
    by (simp add: validateDecisions_def validateDecisionsFrom_passes)
  have 2: "validateDecisions ds eq b a mm mg =
     (case dropWhile (decision_passes b a) ds of
        [] \<Rightarrow> None
      | d # rest \<Rightarrow>
          Some (DecisionFailed (length (takeWhile (decision_passes b a) ds) + 1)
                  (first_failure b a d)))"
    unfolding validateDecisions_def validateDecisionsFrom_reason [of 0]
    by (simp cong: list.case_cong)
  have 3: "validateDecisions (map (\<lambda>d. d\<lparr>PositionSizeUSD := f d\<rparr>) ds) eq b a mm mg =
     validateDecisions ds eq b a mm mg"
    by (simp add: validateDecisions_def validateDecisionsFrom_size)
  show ?thesis using 1 2 3 by blast
qed

text \<open>
  The accepted open of notional \<open>0\<close>, and the same list followed by an open at fifty times
  leverage: the second decision is named, with the ceiling it exceeds.
\<close>

definition ex_open_50 :: Decision where
  "ex_open_50 = ex_open_zero\<lparr>Leverage := 50, PositionSizeUSD := 100\<rparr>"

theorem C5_validator_checks_witness:
  "list_all (decision_passes 10 5) [ex_open_zero] \<and>
   validateDecisions [ex_open_zero] 100 10 5 None (\<lambda>s. None) = None \<and>
   validateDecisions (map (\<lambda>d. d\<lparr>PositionSizeUSD := - 1\<rparr>) [ex_open_zero]) 100 10 5 None (\<lambda>s. None) = None \<and>
   \<not> list_all (decision_passes 10 5) [ex_open_zero, ex_open_50] \<and>
   validateDecisions [ex_open_zero, ex_open_50] 100 10 5 None (\<lambda>s. None) =
     Some (DecisionFailed 2 (LeverageOutOfRange 10 ''BTCUSDT'' 50))"
proof -
  have p: "decision_passes 10 5 ex_open_zero" "\<not> decision_passes 10 5 ex_open_50"
    by (simp_all add: decision_passes_def ex_open_50_def ex_open_zero_def zeroDecision_def validActions_iff)
  have r: "first_failure 10 5 ex_open_50 = LeverageOutOfRange 10 ''BTCUSDT'' 50"
    by (simp add: first_failure_def ex_open_50_def ex_open_zero_def zeroDecision_def validActions_iff)
  show ?thesis
    using C5_validator_checks [of "[ex_open_zero]" 100 10 5 None "\<lambda>s. None" "\<lambda>d. - 1"]
      C5_validator_checks [of "[ex_open_zero, ex_open_50]" 100 10 5 None "\<lambda>s. None" "\<lambda>d. - 1"]
    by (simp add: p r)
qed




section \<open>The trader interface\<close>

text \<open>
  A position as the adapter's \<open>GetPositions\<close> returns it, a map from field names to
  values in the source. The model keeps the fields that the code under study reads.
  \<open>leverage\<close> is \<open>None\<close> when the map has no \<open>float64\<close> under that key.
\<close>

record Position =
  symbol :: string
  side :: string
  positionAmt :: real
  entryPrice :: real
  markPrice :: real
  leverage :: "real option"

text \<open>
  The calls that reach the exchange adapter through the \<open>Trader\<close> interface, as far as
  this development follows them. The engine's side of the model logs each call it makes.
\<close>

datatype trader_call =
    CallGetBalance
  | CallGetPositions
  | CallCloseLong string real
  | CallCloseShort string real
  | CallSetMarginMode string bool
  | CallOpenLong string real int real real
  | CallOpenShort string real int real real

text \<open>
  A value of Go's \<open>interface{}\<close> as the balance map holds it; the assertion
  \<open>.(float64)\<close> succeeds on \<open>GoFloat\<close> only.
\<close>

datatype go_value = GoFloat real | GoString string | GoInt int

text \<open>
  The adapter behind the interface is given by its state \<open>'t\<close> and by what each method
  returns from a state: the balance map or the positions (\<open>None\<close> for an error), for
  a close and for the margin mode whether the error is \<open>nil\<close>, and for an open the
  \<open>orderId\<close> of the order map (\<open>None\<close> for an error); each with the state the call
  leaves.
\<close>

record 't Trader =
  GetBalance :: "'t \<Rightarrow> (string \<rightharpoonup> go_value) option \<times> 't"
  GetPositions :: "'t \<Rightarrow> Position list option \<times> 't"
  CloseLong :: "string \<Rightarrow> real \<Rightarrow> 't \<Rightarrow> bool \<times> 't"
  CloseShort :: "string \<Rightarrow> real \<Rightarrow> 't \<Rightarrow> bool \<times> 't"
  SetMarginMode :: "string \<Rightarrow> bool \<Rightarrow> 't \<Rightarrow> bool \<times> 't"
  OpenLong :: "string \<Rightarrow> real \<Rightarrow> int \<Rightarrow> real \<Rightarrow> real \<Rightarrow> 't \<Rightarrow> go_value option \<times> 't"
  OpenShort :: "string \<Rightarrow> real \<Rightarrow> int \<Rightarrow> real \<Rightarrow> real \<Rightarrow> 't \<Rightarrow> go_value option \<times> 't"

section \<open>The engine's state\<close>

text \<open>
  The fields of the \<open>AutoTrader\<close> that the balance sync, the drawdown monitor and the
  execution of an open work on (\<open>isCrossMargin\<close> stands for \<open>config.IsCrossMargin\<close>).
  Times are nanoseconds on one clock, first-seen times milliseconds. \<open>trader\<close> is the state of the adapter behind
  the interface. Two fields record effects that the source does not keep: \<open>calls\<close> is
  the log of the adapter calls made so far, \<open>persisted\<close> the balances handed to the
  database's \<open>UpdateTraderInitialBalance\<close>.
\<close>

record 't AutoTrader =
  initialBalance :: real
  lastBalanceSyncTime :: int
  peakPnLCache :: "string \<rightharpoonup> real"
  positionFirstSeenTime :: "string \<rightharpoonup> int"
  isCrossMargin :: bool
  trader :: 't
  calls :: "trader_call list"
  persisted :: "real list"

section \<open>Drawdown monitor\<close>

definition UpdatePeakPnL :: "string \<Rightarrow> real \<Rightarrow> (string \<rightharpoonup> real) \<Rightarrow> (string \<rightharpoonup> real)" where
  "UpdatePeakPnL sy cur cache =
     (case cache sy of
        Some peak \<Rightarrow> if cur > peak then cache(sy \<mapsto> cur) else cache
      | None \<Rightarrow> cache(sy \<mapsto> cur))"

definition ClearPeakPnLCache :: "string \<Rightarrow> (string \<rightharpoonup> real) \<Rightarrow> (string \<rightharpoonup> real)" where
  "ClearPeakPnLCache sy cache = cache(sy := None)"

text \<open>Go's conversion \<open>int(lev)\<close> of a \<open>float64\<close> drops the fraction.\<close>

definition goInt :: "real \<Rightarrow> int" where
  "goInt x = (if 0 \<le> x then \<lfloor>x\<rfloor> else \<lceil>x\<rceil>)"

definition currentPnLPct :: "Position \<Rightarrow> real" where
  "currentPnLPct pos =
     (let lev = (case leverage pos of Some l \<Rightarrow> goInt l | None \<Rightarrow> 10)
      in if side pos = ''long''
         then ((markPrice pos - entryPrice pos) / entryPrice pos) * of_int lev * 100
         else ((entryPrice pos - markPrice pos) / entryPrice pos) * of_int lev * 100)"

text \<open>
  \<open>emergencyClosePosition\<close>: the first component is \<open>True\<close> when the source returns a
  \<open>nil\<close> error. A side other than long and short is an error and reaches no adapter.
\<close>

definition emergencyClosePosition ::
  "'t Trader \<Rightarrow> string \<Rightarrow> string \<Rightarrow> 't AutoTrader \<Rightarrow> bool \<times> 't AutoTrader" where
  "emergencyClosePosition tr sy sd mon =
     (if sd = ''long'' then
        (case CloseLong tr sy 0 (trader mon) of
           (ok, t') \<Rightarrow> (ok, mon\<lparr>trader := t', calls := calls mon @ [CallCloseLong sy 0]\<rparr>))
      else if sd = ''short'' then
        (case CloseShort tr sy 0 (trader mon) of
           (ok, t') \<Rightarrow> (ok, mon\<lparr>trader := t', calls := calls mon @ [CallCloseShort sy 0]\<rparr>))
      else (False, mon))"

text \<open>
  The drawdown from the peak, in percent, as the loop body computes it: \<open>0\<close> unless the
  peak is positive and the current return is below it.
\<close>

definition drawdownPct :: "real \<Rightarrow> real \<Rightarrow> real" where
  "drawdownPct peakPnLPct cur =
     (if peakPnLPct > 0 \<and> cur < peakPnLPct then ((peakPnLPct - cur) / peakPnLPct) * 100 else 0)"

text \<open>The body of the loop over the positions in \<open>checkPositionDrawdown\<close>.\<close>

definition checkPosition :: "'t Trader \<Rightarrow> Position \<Rightarrow> 't AutoTrader \<Rightarrow> 't AutoTrader" where
  "checkPosition tr pos mon =
     (let cur = currentPnLPct pos;
          peakPnLPct = (case peakPnLCache mon (symbol pos) of Some p \<Rightarrow> p | None \<Rightarrow> cur);
          mon1 = mon\<lparr>peakPnLCache := UpdatePeakPnL (symbol pos) cur (peakPnLCache mon)\<rparr>
      in if cur > 5 \<and> drawdownPct peakPnLPct cur \<ge> 40 then
           (case emergencyClosePosition tr (symbol pos) (side pos) mon1 of
              (False, mon2) \<Rightarrow> mon2
            | (True, mon2) \<Rightarrow>
                mon2\<lparr>peakPnLCache := ClearPeakPnLCache (symbol pos) (peakPnLCache mon2)\<rparr>)
         else mon1)"


text \<open>
  The rule of the specification, in its words: with the peak raised to
  \<open>max(peak, current)\<close>, close when \<open>current > 5%\<close> and
  \<open>(peak - current) / peak \<ge> 40%\<close>.
\<close>

definition spec_peak :: "real option \<Rightarrow> real \<Rightarrow> real" where
  "spec_peak old cur = (case old of Some p \<Rightarrow> max p cur | None \<Rightarrow> cur)"

definition spec_trigger :: "real option \<Rightarrow> real \<Rightarrow> bool" where
  "spec_trigger old cur \<longleftrightarrow>
     cur > 5 \<and> (spec_peak old cur - cur) / spec_peak old cur \<ge> 40 / 100"

text \<open>The close call that the monitor issues for a position, and whether it succeeds.\<close>

definition close_call :: "Position \<Rightarrow> trader_call" where
  "close_call pos =
     (if side pos = ''long'' then CallCloseLong (symbol pos) 0 else CallCloseShort (symbol pos) 0)"

definition close_ok :: "'t Trader \<Rightarrow> Position \<Rightarrow> 't \<Rightarrow> bool" where
  "close_ok tr pos t =
     (if side pos = ''long'' then fst (CloseLong tr (symbol pos) 0 t)
      else fst (CloseShort tr (symbol pos) 0 t))"


lemma code_trigger_eq_spec:
  "(cur > 5 \<and> drawdownPct (case old of Some p \<Rightarrow> p | None \<Rightarrow> cur) cur \<ge> 40) \<longleftrightarrow> spec_trigger old cur"
proof (cases old)
  case None
  then show ?thesis by (simp add: drawdownPct_def spec_trigger_def spec_peak_def)
next
  case (Some p)
  show ?thesis
  proof (cases "cur < p")
    case True
    then have mx: "max p cur = p" by simp
    show ?thesis
    proof (cases "cur > 5")
      case c5: True
      then have "p > 0" using True by simp
      then show ?thesis using Some True mx c5
        by (simp add: drawdownPct_def spec_trigger_def spec_peak_def field_simps)
    next
      case False
      then show ?thesis by (simp add: spec_trigger_def)
    qed
  next
    case False
    then have mx: "max p cur = cur" by simp
    show ?thesis using Some False mx
      by (simp add: drawdownPct_def spec_trigger_def spec_peak_def)
  qed
qed

lemma peak_after_update:
  "UpdatePeakPnL sy cur cache sy = Some (spec_peak (cache sy) cur)"
  by (auto simp: UpdatePeakPnL_def spec_peak_def split: option.splits)

lemma UpdatePeakPnL_other: "s \<noteq> sy \<Longrightarrow> UpdatePeakPnL sy cur cache s = cache s"
  by (auto simp: UpdatePeakPnL_def split: option.splits)

lemma checkPosition_no_trigger:
  assumes "\<not> spec_trigger (peakPnLCache mon (symbol pos)) (currentPnLPct pos)"
  shows "checkPosition tr pos mon =
           mon\<lparr>peakPnLCache := UpdatePeakPnL (symbol pos) (currentPnLPct pos) (peakPnLCache mon)\<rparr>"
proof -
  have "\<not> (currentPnLPct pos > 5 \<and>
          drawdownPct (case peakPnLCache mon (symbol pos) of Some p \<Rightarrow> p | None \<Rightarrow> currentPnLPct pos)
            (currentPnLPct pos) \<ge> 40)"
    unfolding code_trigger_eq_spec using assms .
  then show ?thesis unfolding checkPosition_def Let_def by (rule if_not_P)
qed

lemma checkPosition_trigger:
  assumes "spec_trigger (peakPnLCache mon (symbol pos)) (currentPnLPct pos)"
  shows "checkPosition tr pos mon =
           (case emergencyClosePosition tr (symbol pos) (side pos)
                   (mon\<lparr>peakPnLCache := UpdatePeakPnL (symbol pos) (currentPnLPct pos) (peakPnLCache mon)\<rparr>) of
              (False, mon2) \<Rightarrow> mon2
            | (True, mon2) \<Rightarrow>
                mon2\<lparr>peakPnLCache := ClearPeakPnLCache (symbol pos) (peakPnLCache mon2)\<rparr>)"
proof -
  have "currentPnLPct pos > 5 \<and>
          drawdownPct (case peakPnLCache mon (symbol pos) of Some p \<Rightarrow> p | None \<Rightarrow> currentPnLPct pos)
            (currentPnLPct pos) \<ge> 40"
    unfolding code_trigger_eq_spec using assms .
  then show ?thesis unfolding checkPosition_def Let_def by (rule if_P)
qed

lemma checkPosition_calls:
  assumes "side pos = ''long'' \<or> side pos = ''short''"
  shows "calls (checkPosition tr pos mon) =
           (if spec_trigger (peakPnLCache mon (symbol pos)) (currentPnLPct pos)
            then calls mon @ [close_call pos] else calls mon)"
proof (cases "spec_trigger (peakPnLCache mon (symbol pos)) (currentPnLPct pos)")
  case False
  then show ?thesis by (simp add: checkPosition_no_trigger)
next
  case True
  show ?thesis using assms
    by (auto simp: checkPosition_trigger [OF True] True emergencyClosePosition_def close_call_def
        split: prod.splits bool.splits)
qed

lemma checkPosition_peak:
  assumes "side pos = ''long'' \<or> side pos = ''short''"
  shows "peakPnLCache (checkPosition tr pos mon) (symbol pos) =
           (if spec_trigger (peakPnLCache mon (symbol pos)) (currentPnLPct pos) \<and>
               close_ok tr pos (trader mon)
            then None
            else Some (spec_peak (peakPnLCache mon (symbol pos)) (currentPnLPct pos)))"
proof (cases "spec_trigger (peakPnLCache mon (symbol pos)) (currentPnLPct pos)")
  case False
  then show ?thesis by (simp add: checkPosition_no_trigger peak_after_update)
next
  case True
  show ?thesis using assms
    by (auto simp: checkPosition_trigger [OF True] True emergencyClosePosition_def close_ok_def
        ClearPeakPnLCache_def peak_after_update split: prod.splits bool.splits)
qed





lemma spec_trigger_peak:
  assumes "spec_trigger old cur"
  shows "\<exists>p. old = Some p \<and> cur < p \<and> spec_peak old cur = p"
proof (cases old)
  case None
  then show ?thesis using assms by (simp add: spec_trigger_def spec_peak_def)
next
  case (Some p)
  show ?thesis
  proof (cases "cur < p")
    case True
    then show ?thesis using Some by (simp add: spec_peak_def)
  next
    case False
    then have "max p cur = cur" by simp
    then show ?thesis using assms Some by (simp add: spec_trigger_def spec_peak_def)
  qed
qed

lemma goInt_of_int [simp]: "goInt (of_int k) = k"
  by (simp add: goInt_def)

text \<open>
  A long position on SOLUSDT at ten times leverage whose return stands at 6 percent, and
  the same position at 6.01 percent; the engine has seen a peak of 10 percent.
\<close>

definition ex_pos :: Position where
  "ex_pos = \<lparr> symbol = ''SOLUSDT'', side = ''long'', positionAmt = 1, entryPrice = 100,
      markPrice = 1006 / 10, leverage = Some 10 \<rparr>"

definition ex_pos_399 :: Position where
  "ex_pos_399 = ex_pos \<lparr> markPrice := 100601 / 1000 \<rparr>"

definition ex_mon :: "nat AutoTrader" where
  "ex_mon = \<lparr> initialBalance = 100, lastBalanceSyncTime = 0,
      peakPnLCache = [''SOLUSDT'' \<mapsto> 10], positionFirstSeenTime = Map.empty,
      isCrossMargin = False, trader = 0, calls = [], persisted = [] \<rparr>"

text \<open>An adapter that counts its calls and whose closes all succeed, or all fail.\<close>

definition ex_trader :: "bool \<Rightarrow> nat Trader" where
  "ex_trader ok = \<lparr> GetBalance = (\<lambda>t. (None, t + 1)),
      GetPositions = (\<lambda>t. (Some [ex_pos], t + 1)),
      CloseLong = (\<lambda>s q t. (ok, t + 1)), CloseShort = (\<lambda>s q t. (ok, t + 1)),
      SetMarginMode = (\<lambda>s c t. (True, t + 1)),
      OpenLong = (\<lambda>s q l sl tp t. (None, t + 1)),
      OpenShort = (\<lambda>s q l sl tp t. (None, t + 1)) \<rparr>"

lemma ex_cur: "currentPnLPct ex_pos = 6" "currentPnLPct ex_pos_399 = 601 / 100"
  by (simp_all add: currentPnLPct_def ex_pos_def ex_pos_399_def goInt_def)

lemma ex_trig: "spec_trigger (Some 10) 6" "\<not> spec_trigger (Some 10) (601 / 100)"
  by (simp_all add: spec_trigger_def spec_peak_def)



text \<open>
  Claim C10: when the trigger holds and the emergency close fails, the peak entry of the
  symbol exists and keeps its value, and the next check of a position of that symbol
  evaluates the trigger against that preserved peak (and issues the close again when it
  holds).
\<close>

theorem C10_failed_close_keeps_peak:
  assumes "side pos = ''long'' \<or> side pos = ''short''"
    and "spec_trigger (peakPnLCache mon (symbol pos)) (currentPnLPct pos)"
    and "\<not> close_ok tr pos (trader mon)"
    and "symbol pos' = symbol pos" and "side pos' = ''long'' \<or> side pos' = ''short''"
  shows "peakPnLCache mon (symbol pos) \<noteq> None \<and>
         peakPnLCache (checkPosition tr pos mon) (symbol pos) = peakPnLCache mon (symbol pos) \<and>
         calls (checkPosition tr pos' (checkPosition tr pos mon)) =
           (if spec_trigger (peakPnLCache mon (symbol pos)) (currentPnLPct pos')
            then calls mon @ [close_call pos, close_call pos']
            else calls mon @ [close_call pos])"
proof -
  obtain p where p: "peakPnLCache mon (symbol pos) = Some p"
      "spec_peak (peakPnLCache mon (symbol pos)) (currentPnLPct pos) = p"
    using spec_trigger_peak [OF assms(2)] by blast
  have keep: "peakPnLCache (checkPosition tr pos mon) (symbol pos) = Some p"
    using checkPosition_peak [OF assms(1), of tr mon] assms(3) p by simp
  have c1: "calls (checkPosition tr pos mon) = calls mon @ [close_call pos]"
    using checkPosition_calls [OF assms(1), of tr mon] assms(2) by simp
  have "calls (checkPosition tr pos' (checkPosition tr pos mon)) =
          (if spec_trigger (Some p) (currentPnLPct pos')
           then calls (checkPosition tr pos mon) @ [close_call pos']
           else calls (checkPosition tr pos mon))"
    using checkPosition_calls [OF assms(5), of tr "checkPosition tr pos mon"] keep assms(4) by simp
  then show ?thesis using p keep c1 by simp
qed

theorem C10_failed_close_keeps_peak_witness:
  "(side ex_pos = ''long'' \<or> side ex_pos = ''short'') \<and>
   spec_trigger (peakPnLCache ex_mon (symbol ex_pos)) (currentPnLPct ex_pos) \<and>
   \<not> close_ok (ex_trader False) ex_pos (trader ex_mon) \<and>
   peakPnLCache (checkPosition (ex_trader False) ex_pos ex_mon) ''SOLUSDT'' = Some 10 \<and>
   calls (checkPosition (ex_trader False) ex_pos (checkPosition (ex_trader False) ex_pos ex_mon)) =
     [CallCloseLong ''SOLUSDT'' 0, CallCloseLong ''SOLUSDT'' 0]"
proof -
  have s1: "side ex_pos = ''long'' \<or> side ex_pos = ''short''" by (simp add: ex_pos_def)
  have sy: "symbol ex_pos = ''SOLUSDT''"
    "peakPnLCache ex_mon ''SOLUSDT'' = Some 10" "calls ex_mon = []"
    "close_call ex_pos = CallCloseLong ''SOLUSDT'' 0"
    by (simp_all add: ex_pos_def ex_mon_def close_call_def)
  have t: "spec_trigger (peakPnLCache ex_mon (symbol ex_pos)) (currentPnLPct ex_pos)"
    by (simp add: sy ex_cur ex_trig)
  have f: "\<not> close_ok (ex_trader False) ex_pos (trader ex_mon)"
    by (simp add: close_ok_def ex_trader_def ex_pos_def)
  show ?thesis
    using C10_failed_close_keeps_peak [OF s1 t f refl s1] s1 t f
    by (simp add: sy ex_cur ex_trig)
qed



section \<open>Balance auto-sync\<close>

text \<open>
  What the engine holds in its \<open>database interface{}\<close> field: nothing, a value without
  the method \<open>UpdateTraderInitialBalance\<close>, or one with it.
\<close>

datatype database = NoDatabase | NotAnUpdater | Updater















section \<open>String operations of package strings\<close>

text \<open>
  \<open>strings.ReplaceAll\<close> for a non-empty \<open>old\<close>: the occurrences are replaced from the
  left, without overlap. (With an empty \<open>old\<close> Go inserts \<open>new\<close> between the
  characters; no call in the sources passes one, and the model returns the text as it
  is.)
\<close>

function replaceAll :: "string \<Rightarrow> string \<Rightarrow> string \<Rightarrow> string" where
  "replaceAll old new [] = []"
| "replaceAll old new (c # cs) =
     (if old \<noteq> [] \<and> prefix old (c # cs)
      then new @ replaceAll old new (drop (length old) (c # cs))
      else c # replaceAll old new cs)"
  by pat_completeness auto
termination
  by (relation "measure (\<lambda>(old, new, s). length s)") (auto simp: neq_Nil_conv)

declare replaceAll.simps(2) [simp del]

definition TrimSuffix :: "string \<Rightarrow> string \<Rightarrow> string" where
  "TrimSuffix s suf = (if suffix suf s then take (length s - length suf) s else s)"

fun Contains :: "string \<Rightarrow> string \<Rightarrow> bool" where
  "Contains [] sub = (sub = [])"
| "Contains (c # cs) sub = (prefix sub (c # cs) \<or> Contains cs sub)"

section \<open>The OKX adapter (package trader)\<close>

subsection \<open>The venue\<close>

text \<open>
  \<open>makeRequest\<close> and the JSON decoding that follows it are the boundary of the model. A
  call gives an error with its message, a body that does not decode, or the decoded
  value. Numeric fields that the source parses with \<open>strconv.ParseFloat\<close>, dropping the
  error, arrive as numbers (\<open>0\<close> where the parse fails).
\<close>

datatype 'a reply = ReqError string | BadJSON | Reply 'a

record okx_balance =
  TotalEq :: real
  AdjEq :: real
  MgnRatio :: real
  Notional :: real
  IsoEq :: string
  Details :: "(string \<times> real) list"

record okx_position =
  InstID :: string
  Pos :: real
  AvgPx :: real
  MarkPx :: real
  Lever :: real
  PosSide :: string

text \<open>
  An instrument: the text of its \<open>lotSz\<close> and what \<open>strconv.ParseFloat\<close> makes of
  that text (\<open>None\<close> for an error).
\<close>

record okx_instrument =
  LotSz :: string
  LotSzValue :: "real option"

record order_request =
  o_instId :: string
  o_side :: string
  o_posSide :: string
  o_sz :: real
  o_reduceOnly :: bool
  o_slTriggerPx :: "real option"
  o_tpTriggerPx :: "real option"

record order_ack =
  OrdID :: string
  SCode :: string
  SMsg :: string

text \<open>
  The endpoints, each from a state \<open>'v\<close> of the venue to its answer and the state after
  the call. \<open>ticker_api\<close> gives the parsed \<open>last\<close> price of each ticker (\<open>None\<close> where
  the parse fails). The endpoints whose body the source ignores give the error message
  only.
\<close>

record 'v Venue =
  balance_api :: "'v \<Rightarrow> okx_balance list reply \<times> 'v"
  positions_api :: "'v \<Rightarrow> okx_position list reply \<times> 'v"
  ticker_api :: "string \<Rightarrow> 'v \<Rightarrow> real option list reply \<times> 'v"
  instruments_api :: "string \<Rightarrow> 'v \<Rightarrow> okx_instrument list reply \<times> 'v"
  order_api :: "order_request \<Rightarrow> 'v \<Rightarrow> order_ack list reply \<times> 'v"
  set_leverage_api :: "string \<Rightarrow> int \<Rightarrow> string \<Rightarrow> 'v \<Rightarrow> string option \<times> 'v"
  cancel_all_after_api :: "string \<Rightarrow> 'v \<Rightarrow> string option \<times> 'v"
  orders_pending_api :: "string \<Rightarrow> 'v \<Rightarrow> string list reply \<times> 'v"
  cancel_order_api :: "string \<Rightarrow> string \<Rightarrow> 'v \<Rightarrow> string option \<times> 'v"
  set_position_mode_api :: "string \<Rightarrow> string \<Rightarrow> 'v \<Rightarrow> string option \<times> 'v"

subsection \<open>The adapter's state and errors\<close>

text \<open>
  The fields of \<open>OKXTrader\<close>. A nil slice and an empty one are both \<open>[]\<close>: the slice
  that \<open>GetPositions\<close> stores is nil exactly when it is empty. Times are nanoseconds.
  \<open>venue\<close> is the state of the exchange; \<open>orders\<close> and \<open>warned\<close> record effects the
  source does not keep: the order requests posted so far, and how often the warning about
  a quantity rounded up by more than 10 percent was logged.
\<close>

record 'v OKXTrader =
  cachedBalance :: "(string \<rightharpoonup> go_value) option"
  balanceCacheTime :: int
  cachedPositions :: "Position list"
  positionsCacheTime :: int
  cacheDuration :: int
  symbolPrecision :: "string \<rightharpoonup> nat"
  symbolLotSz :: "string \<rightharpoonup> real"
  venue :: 'v
  orders :: "order_request list"
  warned :: nat

datatype okx_error =
    BalanceRequestFailed string
  | BalanceParseFailed
  | NoBalanceInfo
  | PositionsRequestFailed string
  | PositionsParseFailed
  | PriceRequestFailed string
  | PriceParseFailed
  | NoPrice
  | SetLeverageFailed string
  | PendingOrdersRequestFailed string
  | PendingOrdersParseFailed
  | InsufficientMargin real real real
  | StopLossWrongSide real real
  | StopLossBeyondLiquidation real real
  | TakeProfitWrongSide real real
  | StopLossCrossesTakeProfit real real
  | OrderRequestFailed string
  | OrderParseFailed
  | OrderResponseEmpty
  | OrderRejected string string
  | NoPositionToClose string


subsection \<open>Reads with a cache\<close>

definition balanceResult :: "okx_balance \<Rightarrow> (string \<rightharpoonup> go_value)" where
  "balanceResult balance =
     (let availableEq = (case find (\<lambda>d. fst d = ''USDT'') (Details balance) of
                           Some d \<Rightarrow> snd d | None \<Rightarrow> 0)
      in [''totalWalletBalance'' \<mapsto> GoFloat (TotalEq balance),
          ''totalEquity'' \<mapsto> GoFloat (AdjEq balance),
          ''availableBalance'' \<mapsto> GoFloat availableEq,
          ''totalUnrealizedProfit'' \<mapsto> GoFloat 0,
          ''mgnRatio'' \<mapsto> GoFloat (MgnRatio balance),
          ''notionalUsd'' \<mapsto> GoFloat (Notional balance),
          ''isoEq'' \<mapsto> GoString (IsoEq balance)])"

text \<open>
  \<open>GetBalance\<close>, called when the clock shows \<open>now\<close>. \<open>Inl\<close> carries the error.
\<close>

definition okxGetBalance ::
  "'v Venue \<Rightarrow> int \<Rightarrow> 'v OKXTrader \<Rightarrow> (okx_error + (string \<rightharpoonup> go_value)) \<times> 'v OKXTrader" where
  "okxGetBalance api now t =
     (if cachedBalance t \<noteq> None \<and> now - balanceCacheTime t < cacheDuration t
      then (Inr (the (cachedBalance t)), t)
      else
        (case balance_api api (venue t) of
           (r, v') \<Rightarrow>
             (case r of
                ReqError m \<Rightarrow> (Inl (BalanceRequestFailed m), t\<lparr>venue := v'\<rparr>)
              | BadJSON \<Rightarrow> (Inl BalanceParseFailed, t\<lparr>venue := v'\<rparr>)
              | Reply [] \<Rightarrow> (Inl NoBalanceInfo, t\<lparr>venue := v'\<rparr>)
              | Reply (balance # rest) \<Rightarrow>
                  (Inr (balanceResult balance),
                   t\<lparr>venue := v', cachedBalance := Some (balanceResult balance),
                     balanceCacheTime := now\<rparr>))))"

text \<open>
  One entry of the loop in \<open>GetPositions\<close>: the symbol is rewritten from the venue's
  form, the amount is made positive, and the side is the venue's \<open>posSide\<close> when that is
  long or short, else the sign of the amount. Of the map that the source builds, the
  model keeps the fields of \<^typ>\<open>Position\<close>.
\<close>

definition positionOf :: "okx_position \<Rightarrow> Position" where
  "positionOf pos =
     \<lparr> symbol = replaceAll ''-'' [] (replaceAll ''-USDT-SWAP'' ''USDT'' (InstID pos)),
       side = (if PosSide pos = ''long'' then ''long''
               else if PosSide pos = ''short'' then ''short''
               else if Pos pos > 0 then ''long'' else ''short''),
       positionAmt = (if Pos pos < 0 then - Pos pos else Pos pos),
       entryPrice = AvgPx pos,
       markPrice = MarkPx pos,
       leverage = Some (Lever pos) \<rparr>"

definition positionsResult :: "okx_position list \<Rightarrow> Position list" where
  "positionsResult positions = map positionOf (filter (\<lambda>pos. Pos pos \<noteq> 0) positions)"

definition okxGetPositions ::
  "'v Venue \<Rightarrow> int \<Rightarrow> 'v OKXTrader \<Rightarrow> (okx_error + Position list) \<times> 'v OKXTrader" where
  "okxGetPositions api now t =
     (if cachedPositions t \<noteq> [] \<and> now - positionsCacheTime t < cacheDuration t
      then (Inr (cachedPositions t), t)
      else
        (case positions_api api (venue t) of
           (r, v') \<Rightarrow>
             (case r of
                ReqError m \<Rightarrow> (Inl (PositionsRequestFailed m), t\<lparr>venue := v'\<rparr>)
              | BadJSON \<Rightarrow> (Inl PositionsParseFailed, t\<lparr>venue := v'\<rparr>)
              | Reply positions \<Rightarrow>
                  (Inr (positionsResult positions),
                   t\<lparr>venue := v', cachedPositions := positionsResult positions,
                     positionsCacheTime := now\<rparr>))))"

subsection \<open>Precision and lot size\<close>

definition convertSymbolToInstID :: "string \<Rightarrow> string" where
  "convertSymbolToInstID sy = TrimSuffix sy ''USDT'' @ ''-USDT-SWAP''"

text \<open>\<open>strings.TrimRight(s, cutset)\<close> for a one-character cutset.\<close>

definition TrimRightChar :: "string \<Rightarrow> char \<Rightarrow> string" where
  "TrimRightChar s c = rev (dropWhile (\<lambda>x. x = c) (rev s))"

text \<open>\<open>calculatePrecisionFromStepSize\<close>: the digits behind the point of the step size.\<close>

definition calculatePrecisionFromStepSize :: "string \<Rightarrow> nat" where
  "calculatePrecisionFromStepSize stepSize =
     (let s = TrimRightChar (TrimRightChar stepSize (CHR ''0'')) (CHR ''.'')
      in if CHR ''.'' \<notin> set s then 0
         else length s - length (takeWhile (\<lambda>x. x \<noteq> CHR ''.'') s) - 1)"

definition GetSymbolPrecision ::
  "'v Venue \<Rightarrow> string \<Rightarrow> 'v OKXTrader \<Rightarrow> nat \<times> 'v OKXTrader" where
  "GetSymbolPrecision api sy t =
     (case symbolPrecision t sy of
        Some precision \<Rightarrow> (precision, t)
      | None \<Rightarrow>
         (case instruments_api api (convertSymbolToInstID sy) (venue t) of
            (r, v') \<Rightarrow>
              (case r of
                 Reply (inst # rest) \<Rightarrow>
                   (calculatePrecisionFromStepSize (LotSz inst),
                    t\<lparr>venue := v', symbolPrecision :=
                        (symbolPrecision t)(sy \<mapsto> calculatePrecisionFromStepSize (LotSz inst))\<rparr>)
               | _ \<Rightarrow> (3, t\<lparr>venue := v'\<rparr>))))"

definition defaultLotSz :: real where
  "defaultLotSz = 1 / 10000"

definition GetSymbolLotSz ::
  "'v Venue \<Rightarrow> string \<Rightarrow> 'v OKXTrader \<Rightarrow> real \<times> 'v OKXTrader" where
  "GetSymbolLotSz api sy t =
     (case symbolLotSz t sy of
        Some lotSz \<Rightarrow> (lotSz, t)
      | None \<Rightarrow>
         (case instruments_api api (convertSymbolToInstID sy) (venue t) of
            (r, v') \<Rightarrow>
              (let lotSz = (case r of
                              Reply (inst # rest) \<Rightarrow>
                                (case LotSzValue inst of Some l \<Rightarrow> l | None \<Rightarrow> defaultLotSz)
                            | _ \<Rightarrow> defaultLotSz)
               in (lotSz, t\<lparr>venue := v', symbolLotSz := (symbolLotSz t)(sy \<mapsto> lotSz)\<rparr>))))"

text \<open>
  The number that \<open>fmt.Sprintf("%.Nf", x)\<close> prints: \<open>x\<close> rounded to \<open>N\<close> decimals, a
  tie going to the even digit.
\<close>

definition roundHalfEven :: "real \<Rightarrow> int" where
  "roundHalfEven x =
     (let f = \<lfloor>x\<rfloor>; d = x - of_int f
      in if d < 1 / 2 then f else if d > 1 / 2 then f + 1 else if even f then f else f + 1)"

definition formatFloat :: "nat \<Rightarrow> real \<Rightarrow> real" where
  "formatFloat precision x = of_int (roundHalfEven (x * 10 ^ precision)) / 10 ^ precision"

text \<open>
  \<open>FormatQuantity\<close>. The text it returns is modelled by the number it prints, which is
  also what \<open>strconv.ParseFloat\<close> reads back from it. \<open>GetSymbolPrecision\<close> and
  \<open>GetSymbolLotSz\<close> never return an error, so the two error branches of the source are
  not reachable.
\<close>

definition roundUpToLot :: "real \<Rightarrow> real \<Rightarrow> real" where
  "roundUpToLot lotSz quantity =
     (if quantity > 0
      then (if quantity < lotSz then lotSz else of_int \<lceil>quantity / lotSz\<rceil> * lotSz)
      else quantity)"

definition FormatQuantity ::
  "'v Venue \<Rightarrow> string \<Rightarrow> real \<Rightarrow> 'v OKXTrader \<Rightarrow> real \<times> 'v OKXTrader" where
  "FormatQuantity api sy quantity t =
     (case GetSymbolPrecision api sy t of
        (precision, t1) \<Rightarrow>
          (case GetSymbolLotSz api sy t1 of
             (lotSz, t2) \<Rightarrow> (formatFloat precision (roundUpToLot lotSz quantity), t2)))"


subsection \<open>Orders\<close>

text \<open>The loop of \<open>cancelAllOrdersOneByOne\<close>: a failed cancel is logged and skipped.\<close>

fun cancelEach :: "'v Venue \<Rightarrow> string \<Rightarrow> string list \<Rightarrow> 'v \<Rightarrow> 'v" where
  "cancelEach api instID [] v = v"
| "cancelEach api instID (ordId # rest) v =
     cancelEach api instID rest (snd (cancel_order_api api instID ordId v))"

definition cancelAllOrdersOneByOne ::
  "'v Venue \<Rightarrow> string \<Rightarrow> 'v OKXTrader \<Rightarrow> okx_error option \<times> 'v OKXTrader" where
  "cancelAllOrdersOneByOne api instID t =
     (case orders_pending_api api instID (venue t) of
        (r, v') \<Rightarrow>
          (case r of
             ReqError m \<Rightarrow> (Some (PendingOrdersRequestFailed m), t\<lparr>venue := v'\<rparr>)
           | BadJSON \<Rightarrow> (Some PendingOrdersParseFailed, t\<lparr>venue := v'\<rparr>)
           | Reply ids \<Rightarrow> (None, t\<lparr>venue := cancelEach api instID ids v'\<rparr>)))"

definition CancelAllOrders ::
  "'v Venue \<Rightarrow> string \<Rightarrow> 'v OKXTrader \<Rightarrow> okx_error option \<times> 'v OKXTrader" where
  "CancelAllOrders api sy t =
     (case cancel_all_after_api api (convertSymbolToInstID sy) (venue t) of
        (Some m, v') \<Rightarrow> cancelAllOrdersOneByOne api (convertSymbolToInstID sy) (t\<lparr>venue := v'\<rparr>)
      | (None, v') \<Rightarrow> (None, t\<lparr>venue := v'\<rparr>))"

text \<open>
  \<open>SetLeverageWithPosSide\<close>. With an empty \<open>posSide\<close> both sides are set and only
  the second answer decides. The five seconds of sleep after a change are not modelled.
\<close>

definition leverageAlreadySet :: "string \<Rightarrow> bool" where
  "leverageAlreadySet m \<longleftrightarrow> Contains m ''already'' \<or> Contains m ''No need''"

definition SetLeverageWithPosSide ::
  "'v Venue \<Rightarrow> string \<Rightarrow> int \<Rightarrow> string \<Rightarrow> 'v OKXTrader \<Rightarrow> okx_error option \<times> 'v OKXTrader" where
  "SetLeverageWithPosSide api sy lev posSide t =
     (if posSide = [] then
        (case set_leverage_api api (convertSymbolToInstID sy) lev ''long'' (venue t) of
           (err1, v1) \<Rightarrow>
             (case set_leverage_api api (convertSymbolToInstID sy) lev ''short'' v1 of
                (Some m, v2) \<Rightarrow>
                  (if leverageAlreadySet m then None else Some (SetLeverageFailed m),
                   t\<lparr>venue := v2\<rparr>)
              | (None, v2) \<Rightarrow> (None, t\<lparr>venue := v2\<rparr>)))
      else
        (case set_leverage_api api (convertSymbolToInstID sy) lev posSide (venue t) of
           (Some m, v') \<Rightarrow>
             (if leverageAlreadySet m then None else Some (SetLeverageFailed m),
              t\<lparr>venue := v'\<rparr>)
         | (None, v') \<Rightarrow> (None, t\<lparr>venue := v'\<rparr>)))"


definition GetMarketPrice ::
  "'v Venue \<Rightarrow> string \<Rightarrow> 'v OKXTrader \<Rightarrow> (okx_error + real) \<times> 'v OKXTrader" where
  "GetMarketPrice api sy t =
     (case ticker_api api (convertSymbolToInstID sy) (venue t) of
        (r, v') \<Rightarrow>
          (case r of
             ReqError m \<Rightarrow> Inl (PriceRequestFailed m)
           | BadJSON \<Rightarrow> Inl PriceParseFailed
           | Reply [] \<Rightarrow> Inl NoPrice
           | Reply (None # rest) \<Rightarrow> Inl PriceParseFailed
           | Reply (Some price # rest) \<Rightarrow> Inr price,
           t\<lparr>venue := v'\<rparr>))"

text \<open>Posting an order: the request goes to the venue and into the log.\<close>

definition postOrder ::
  "'v Venue \<Rightarrow> order_request \<Rightarrow> 'v OKXTrader \<Rightarrow> order_ack list reply \<times> 'v OKXTrader" where
  "postOrder api req t =
     (case order_api api req (venue t) of
        (r, v') \<Rightarrow> (r, t\<lparr>venue := v', orders := orders t @ [req]\<rparr>))"








text \<open>
  \<open>CloseLong\<close> and \<open>CloseShort\<close>. With quantity \<open>0\<close> the amount of the first position
  of the symbol and side is taken from \<open>GetPositions\<close>; \<open>CloseShort\<close> negates it. After
  an accepted order the orders of the symbol are cancelled (an error is logged only).
\<close>

definition closeRequest :: "string \<Rightarrow> string \<Rightarrow> real \<Rightarrow> order_request" where
  "closeRequest posSide sy sz =
     \<lparr> o_instId = convertSymbolToInstID sy,
       o_side = (if posSide = ''long'' then ''sell'' else ''buy''),
       o_posSide = posSide,
       o_sz = sz,
       o_reduceOnly = True,
       o_slTriggerPx = None,
       o_tpTriggerPx = None \<rparr>"

definition closeOrder ::
  "string \<Rightarrow> 'v Venue \<Rightarrow> string \<Rightarrow> real \<Rightarrow> 'v OKXTrader \<Rightarrow> (okx_error + string) \<times> 'v OKXTrader" where
  "closeOrder posSide api sy quantity t =
     (case FormatQuantity api sy quantity t of
        (sz, t1) \<Rightarrow>
          (case postOrder api (closeRequest posSide sy sz) t1 of
             (ReqError m, t2) \<Rightarrow> (Inl (OrderRequestFailed m), t2)
           | (BadJSON, t2) \<Rightarrow> (Inl OrderParseFailed, t2)
           | (Reply [], t2) \<Rightarrow> (Inl OrderResponseEmpty, t2)
           | (Reply (order # rest), t2) \<Rightarrow>
               (if SCode order \<noteq> ''0''
                then (Inl (OrderRejected (SCode order) (SMsg order)), t2)
                else (Inr (OrdID order), snd (CancelAllOrders api sy t2)))))"






subsection \<open>What each call leaves untouched\<close>

definition balcache :: "'v OKXTrader \<Rightarrow> (string \<rightharpoonup> go_value) option \<times> int" where
  "balcache t = (cachedBalance t, balanceCacheTime t)"

definition poscache :: "'v OKXTrader \<Rightarrow> Position list \<times> int" where
  "poscache t = (cachedPositions t, positionsCacheTime t)"

definition ghost :: "'v OKXTrader \<Rightarrow> order_request list \<times> nat \<times> int" where
  "ghost t = (orders t, warned t, cacheDuration t)"

lemma frame_GetSymbolPrecision [simp]:
  "balcache (snd (GetSymbolPrecision api sy t)) = balcache t"
  "poscache (snd (GetSymbolPrecision api sy t)) = poscache t"
  "ghost (snd (GetSymbolPrecision api sy t)) = ghost t"
  by (auto simp: GetSymbolPrecision_def balcache_def poscache_def ghost_def
      split: option.splits prod.splits reply.splits list.splits)

lemma frame_GetSymbolLotSz [simp]:
  "balcache (snd (GetSymbolLotSz api sy t)) = balcache t"
  "poscache (snd (GetSymbolLotSz api sy t)) = poscache t"
  "ghost (snd (GetSymbolLotSz api sy t)) = ghost t"
  by (auto simp: GetSymbolLotSz_def balcache_def poscache_def ghost_def Let_def
      split: option.splits prod.splits reply.splits list.splits)

lemma frame_FormatQuantity [simp]:
  "balcache (snd (FormatQuantity api sy q t)) = balcache t"
  "poscache (snd (FormatQuantity api sy q t)) = poscache t"
  "ghost (snd (FormatQuantity api sy q t)) = ghost t"
proof -
  obtain p t1 where a: "GetSymbolPrecision api sy t = (p, t1)" by (cases "GetSymbolPrecision api sy t")
  obtain l t2 where b: "GetSymbolLotSz api sy t1 = (l, t2)" by (cases "GetSymbolLotSz api sy t1")
  have t1: "t1 = snd (GetSymbolPrecision api sy t)" using a by simp
  have t2: "t2 = snd (GetSymbolLotSz api sy t1)" using b by simp
  have r: "snd (FormatQuantity api sy q t) = t2" by (simp add: FormatQuantity_def a b)
  show "balcache (snd (FormatQuantity api sy q t)) = balcache t"
    "poscache (snd (FormatQuantity api sy q t)) = poscache t"
    "ghost (snd (FormatQuantity api sy q t)) = ghost t"
    unfolding r by (simp_all add: t2 t1)
qed

lemma frame_cancelAllOrdersOneByOne [simp]:
  "balcache (snd (cancelAllOrdersOneByOne api i t)) = balcache t"
  "poscache (snd (cancelAllOrdersOneByOne api i t)) = poscache t"
  "ghost (snd (cancelAllOrdersOneByOne api i t)) = ghost t"
  by (auto simp: cancelAllOrdersOneByOne_def balcache_def poscache_def ghost_def
      split: option.splits prod.splits reply.splits list.splits)

lemma frame_venue [simp]:
  "balcache (t\<lparr>venue := v\<rparr>) = balcache t"
  "poscache (t\<lparr>venue := v\<rparr>) = poscache t"
  "ghost (t\<lparr>venue := v\<rparr>) = ghost t"
  by (simp_all add: balcache_def poscache_def ghost_def)

lemma frame_CancelAllOrders [simp]:
  "balcache (snd (CancelAllOrders api sy t)) = balcache t"
  "poscache (snd (CancelAllOrders api sy t)) = poscache t"
  "ghost (snd (CancelAllOrders api sy t)) = ghost t"
  by (auto simp: CancelAllOrders_def split: option.splits prod.splits)

lemma frame_SetLeverageWithPosSide [simp]:
  "balcache (snd (SetLeverageWithPosSide api sy l ps t)) = balcache t"
  "poscache (snd (SetLeverageWithPosSide api sy l ps t)) = poscache t"
  "ghost (snd (SetLeverageWithPosSide api sy l ps t)) = ghost t"
  by (auto simp: SetLeverageWithPosSide_def split: option.splits prod.splits)

lemma frame_GetMarketPrice [simp]:
  "balcache (snd (GetMarketPrice api sy t)) = balcache t"
  "poscache (snd (GetMarketPrice api sy t)) = poscache t"
  "ghost (snd (GetMarketPrice api sy t)) = ghost t"
  by (auto simp: GetMarketPrice_def split: option.splits prod.splits)

lemma frame_okxGetBalance [simp]:
  "poscache (snd (okxGetBalance api now t)) = poscache t"
  "ghost (snd (okxGetBalance api now t)) = ghost t"
  by (auto simp: okxGetBalance_def poscache_def ghost_def
      split: option.splits prod.splits reply.splits list.splits)

lemma frame_okxGetPositions [simp]:
  "balcache (snd (okxGetPositions api now t)) = balcache t"
  "ghost (snd (okxGetPositions api now t)) = ghost t"
  by (auto simp: okxGetPositions_def balcache_def ghost_def
      split: option.splits prod.splits reply.splits list.splits)

lemma frame_postOrder [simp]:
  "balcache (snd (postOrder api req t)) = balcache t"
  "poscache (snd (postOrder api req t)) = poscache t"
  "orders (snd (postOrder api req t)) = orders t @ [req]"
  "warned (snd (postOrder api req t)) = warned t"
  by (auto simp: postOrder_def balcache_def poscache_def split: prod.splits)


lemma frame_closeOrder [simp]:
  "balcache (snd (closeOrder ps api sy q t)) = balcache t"
  "poscache (snd (closeOrder ps api sy q t)) = poscache t"
proof -
  obtain sz t1 where a: "FormatQuantity api sy q t = (sz, t1)" by (cases "FormatQuantity api sy q t")
  have t1: "t1 = snd (FormatQuantity api sy q t)" using a by simp
  obtain r t2 where b: "postOrder api (closeRequest ps sy sz) t1 = (r, t2)"
    by (cases "postOrder api (closeRequest ps sy sz) t1")
  have t2: "t2 = snd (postOrder api (closeRequest ps sy sz) t1)" using b by simp
  have c: "balcache t2 = balcache t" "poscache t2 = poscache t" by (simp_all add: t2 t1)
  show "balcache (snd (closeOrder ps api sy q t)) = balcache t"
    by (simp add: closeOrder_def a b c split: reply.splits list.splits)
  show "poscache (snd (closeOrder ps api sy q t)) = poscache t"
    by (simp add: closeOrder_def a b c split: reply.splits list.splits)
qed





subsection \<open>Rounding\<close>

lemma roundHalfEven_of_int [simp]: "roundHalfEven (of_int m) = m"
  by (simp add: roundHalfEven_def)







subsection \<open>A venue to run the adapter against\<close>





definition btc_raw :: okx_position where
  "btc_raw = \<lparr>InstID = ''BTC-USDT-SWAP'', Pos = 1 / 100, AvgPx = 60000, MarkPx = 60000,
      Lever = 10, PosSide = ''long''\<rparr>"




lemma btc_pos: "positionOf btc_raw = \<lparr>symbol = ''BTCUSDT'', side = ''long'', positionAmt = 1 / 100,
   entryPrice = 60000, markPrice = 60000, leverage = Some 10\<rparr>"
  by (simp add: positionOf_def btc_raw_def replaceAll.simps)








































section \<open>Executing an open decision\<close>



























end
